theory Spec2Isabelle
  imports Main "HOL-Library.Sublist"
begin

section \<open>The name generator (scripts/name\_generator.py)\<close>

text \<open>
  The script reads the parsed JSON document, walks over \<^verbatim>\<open>data['Entries']\<close>, appends
  \<^verbatim>\<open>[guid, name]\<close> pairs to the two module-level lists \<^verbatim>\<open>squads\<close> and
  \<^verbatim>\<open>companions\<close>, and finally writes the text of two Rust functions to
  \<^verbatim>\<open>src/data/names.rs\<close>.

  Python strings are modelled by \<^typ>\<open>string\<close>; every literal of the script is ASCII.
  \<^verbatim>\<open>s.startswith(p)\<close> is \<^const>\<open>prefix\<close>, \<^verbatim>\<open>s.endswith(x)\<close> is \<^const>\<open>suffix\<close>,
  the slice \<^verbatim>\<open>s[:-10]\<close> is \<open>take (length s - 10) s\<close> (empty when \<open>s\<close> has fewer than
  ten characters, as in Python), and \<^verbatim>\<open>s[k:]\<close> is \<open>drop k s\<close>.
\<close>

subsection \<open>Strings\<close>

definition startswith :: "string \<Rightarrow> string \<Rightarrow> bool" where
  "startswith s p = prefix p s"

definition endswith :: "string \<Rightarrow> string \<Rightarrow> bool" where
  "endswith s x = suffix x s"

subsection \<open>Input records and the module state\<close>

text \<open>
  An element of \<^verbatim>\<open>data['Entries']\<close> is a JSON object, a Python dict from field names
  to values; in the input format the values of \<^verbatim>\<open>Name\<close>, \<^verbatim>\<open>TypeFullName\<close> and
  \<^verbatim>\<open>Guid\<close> are strings. A field may be absent, and then the subscript
  \<^verbatim>\<open>entry['Name']\<close> raises \<^verbatim>\<open>KeyError\<close>, which nothing in the script catches.
\<close>

type_synonym entry = "string \<rightharpoonup> string"

datatype error = KeyError string

definition getitem :: "entry \<Rightarrow> string \<Rightarrow> error + string" where
  "getitem entry k = (case entry k of None \<Rightarrow> Inl (KeyError k) | Some v \<Rightarrow> Inr v)"

text \<open>A \<^verbatim>\<open>[guid, name]\<close> pair, and the two global lists.\<close>

type_synonym named_entry = "string \<times> string"

record globals =
  squads :: "named_entry list"
  companions :: "named_entry list"

definition initial :: globals where
  "initial = \<lparr>squads = [], companions = []\<rparr>"

subsection \<open>The classification of one record (lines 33 to 49)\<close>

text \<open>
  The four tests are four separate \<^verbatim>\<open>if\<close> statements, run one after the other, and
  the first, second and fourth assign to the local variable \<^verbatim>\<open>name\<close>: a later test
  sees the name as the earlier ones left it.
\<close>

definition classify :: "string \<Rightarrow> string \<Rightarrow> string \<Rightarrow> globals \<Rightarrow> globals" where
  "classify name0 type guid g0 =
    (let (name1, g1) =
           (if endswith name0 ''_Companion''
            then (let n = take (length name0 - 10) name0
                  in (n, g0\<lparr>companions := companions g0 @ [(guid, n)]\<rparr>))
            else (name0, g0));
         (name2, g2) =
           (if startswith name1 ''AnimalCompanionUnit''
            then (let n = drop 19 name1
                  in (n, g1\<lparr>companions := companions g1 @ [(guid, n)]\<rparr>))
            else (name1, g1));
         g3 =
           (if name2 = ''AzataDragonUnit''
            then g2\<lparr>companions := companions g2 @ [(guid, ''Aivu'')]\<rparr>
            else g2);
         (name3, g4) =
           (if startswith name2 ''Army'' \<and> type = ''Kingmaker.Blueprints.BlueprintUnit''
            then (let n = drop 4 name2
                  in (n, g3\<lparr>squads := squads g3 @ [(guid, n)]\<rparr>))
            else (name2, g3))
     in g4)"

text \<open>The loop body: the three subscripts in the order of lines 29 to 31, then the tests.\<close>

definition loop_body :: "entry \<Rightarrow> globals \<Rightarrow> error + globals" where
  "loop_body entry g =
    (case getitem entry ''Name'' of
       Inl e \<Rightarrow> Inl e
     | Inr name \<Rightarrow>
        (case getitem entry ''TypeFullName'' of
           Inl e \<Rightarrow> Inl e
         | Inr type \<Rightarrow>
            (case getitem entry ''Guid'' of
               Inl e \<Rightarrow> Inl e
             | Inr guid \<Rightarrow> Inr (classify name type guid g))))"

text \<open>The \<^verbatim>\<open>for\<close> loop of line 28; an exception leaves the loop and ends the script.\<close>

fun extraction :: "entry list \<Rightarrow> globals \<Rightarrow> error + globals" where
  "extraction [] g = Inr g"
| "extraction (entry # rest) g =
    (case loop_body entry g of Inl e \<Rightarrow> Inl e | Inr g' \<Rightarrow> extraction rest g')"

text \<open>A record that has all three fields.\<close>

definition json_record :: "string \<Rightarrow> string \<Rightarrow> string \<Rightarrow> entry" where
  "json_record name type guid =
     [''Name'' \<mapsto> name, ''TypeFullName'' \<mapsto> type, ''Guid'' \<mapsto> guid]"

text \<open>
  What one record adds to each list, written out: the value of \<^verbatim>\<open>name\<close> after the
  first test, its value after the second, and the pairs appended by the four tests in
  their order. Lemma \<open>classify_entries\<close> below shows that this is what \<open>classify\<close> does.
\<close>

definition after_suffix :: "string \<Rightarrow> string" where
  "after_suffix name =
     (if endswith name ''_Companion'' then take (length name - 10) name else name)"

definition after_prefix :: "string \<Rightarrow> string" where
  "after_prefix name =
     (if startswith (after_suffix name) ''AnimalCompanionUnit''
      then drop 19 (after_suffix name) else after_suffix name)"

definition companion_entries :: "string \<Rightarrow> string \<Rightarrow> named_entry list" where
  "companion_entries name guid =
     (if endswith name ''_Companion'' then [(guid, after_suffix name)] else [])
     @ (if startswith (after_suffix name) ''AnimalCompanionUnit''
        then [(guid, after_prefix name)] else [])
     @ (if after_prefix name = ''AzataDragonUnit'' then [(guid, ''Aivu'')] else [])"

definition squad_entries :: "string \<Rightarrow> string \<Rightarrow> string \<Rightarrow> named_entry list" where
  "squad_entries name type guid =
     (if startswith (after_prefix name) ''Army'' \<and> type = ''Kingmaker.Blueprints.BlueprintUnit''
      then [(guid, drop 4 (after_prefix name))] else [])"

subsection \<open>The emitter (lines 7 to 20)\<close>

definition dq :: char where
  "dq = CHR 0x22"

text \<open>The \<^verbatim>\<open>for\<close> loop of lines 11 to 13, appending to \<^verbatim>\<open>code\<close>.\<close>

fun arms_loop :: "named_entry list \<Rightarrow> string \<Rightarrow> string" where
  "arms_loop [] code = code"
| "arms_loop ((guid, name) # rest) code =
    (if name = ''''
     then arms_loop rest code
     else arms_loop rest
            (code @ ''        '' @ [dq] @ guid @ [dq] @ '' => Some('' @ [dq] @ name @ [dq]
                  @ ''),\<newline>''))"

definition as_string_function :: "string \<Rightarrow> named_entry list \<Rightarrow> string" where
  "as_string_function type entries =
    (let code0 = ''/// Convert a '' @ type @ '' guid into its (english) name\<newline>'';
         code1 = code0 @ ''pub fn '' @ type
                   @ ''_as_string(s: &str) -> Option<&'static str> {\<newline>'';
         code2 = code1 @ ''    match s {\<newline>'';
         code3 = arms_loop entries code2;
         code4 = code3 @ ''        _ => {\<newline>''
                   @ ''            info!('' @ [dq] @ ''Unknown party member found: {}'' @ [dq]
                   @ '', s);\<newline>''
                   @ ''            None\<newline>''
                   @ ''        }\<newline>'';
         code5 = code4 @ ''    }\<newline>}''
     in code5)"

subsection \<open>The script as a whole\<close>

text \<open>
  The text written at lines 51 to 58, and the run: the output file is opened only after
  the loop has finished, so a run that raises leaves the file system as it was.
\<close>

definition names_rs :: "globals \<Rightarrow> string" where
  "names_rs g =
     ''use log::info;\<newline>\<newline>''
     @ as_string_function ''squad'' (squads g)
     @ ''\<newline>\<newline>''
     @ as_string_function ''companion'' (companions g)
     @ ''\<newline>''"

type_synonym files = "string \<rightharpoonup> string"

definition script :: "entry list \<Rightarrow> files \<Rightarrow> error option \<times> files" where
  "script entries fs =
    (case extraction entries initial of
       Inl e \<Rightarrow> (Some e, fs)
     | Inr g \<Rightarrow> (None, fs(''src/data/names.rs'' \<mapsto> names_rs g)))"

subsection \<open>The parts of the emitted text\<close>

text \<open>
  The text before the loop (lines 8 to 10) and the text after the catch-all arm (line 18),
  named for the statements below.
\<close>

definition prologue :: "string \<Rightarrow> string" where
  "prologue type =
     ''/// Convert a '' @ type @ '' guid into its (english) name\<newline>''
     @ ''pub fn '' @ type @ ''_as_string(s: &str) -> Option<&'static str> {\<newline>''
     @ ''    match s {\<newline>''"

definition epilogue :: string where
  "epilogue = ''    }\<newline>}''"

text \<open>The entries the emitter does not skip.\<close>

definition rendered :: "named_entry list \<Rightarrow> named_entry list" where
  "rendered entries = filter (\<lambda>(guid, name). name \<noteq> '''') entries"

subsection \<open>The generated lookup function\<close>

text \<open>
  The generated file and the language that compiles it are not among the sources. The
  specification says what the text is meant to be: after the signature, one arm per
  surviving entry, a literal identifier pattern giving \<^verbatim>\<open>Some\<close> of a literal name, and
  last the catch-all arm that logs and gives the no-value result; the lookup is
  first-match-wins over the arms in their textual order. The definitions of this
  subsection read a text of that shape and evaluate it. The lookup is defined on the text
  alone: what the emitter was given does not enter it.
\<close>

definition bs :: char where
  "bs = CHR 0x5C"

definition cr :: char where
  "cr = CHR 0x0D"

text \<open>
  Modelled from the spec: the character that an escape stands for, given the character
  after the backslash; \<open>None\<close> for an escape that is not read.
\<close>

definition unescape :: "char \<Rightarrow> char option" where
  "unescape c =
    (if c = CHR ''n'' then Some (CHR 0x0A)
     else if c = CHR ''r'' then Some (CHR 0x0D)
     else if c = CHR ''t'' then Some (CHR 0x09)
     else if c = CHR ''0'' then Some (CHR 0x00)
     else if c = bs then Some bs
     else if c = dq then Some dq
     else if c = CHR 0x27 then Some (CHR 0x27)
     else None)"

text \<open>
  Modelled from the spec: the reading of a string literal of the generated text, which
  is not among the sources. Given the text after the opening double quote, the result is
  the value of the literal and the text after its closing quote. The literal ends at the
  first double quote that no backslash precedes, and a backslash starts an escape. The
  escapes read are \<^verbatim>\<open>\n\<close>, \<^verbatim>\<open>\r\<close>, \<^verbatim>\<open>\t\<close>, \<^verbatim>\<open>\0\<close>, a doubled backslash, and a
  backslash before a double or a single quote; a literal with another escape, with a
  bare carriage return or without its closing quote is not read.
\<close>

fun read_literal :: "string \<Rightarrow> (string \<times> string) option" where
  "read_literal [] = None"
| "read_literal (c # cs) =
    (if c = dq then Some ([], cs)
     else if c = cr then None
     else if c = bs then
       (case cs of
          [] \<Rightarrow> None
        | e # cs' \<Rightarrow>
           (case unescape e of
              None \<Rightarrow> None
            | Some v \<Rightarrow> map_option (\<lambda>(w, r). (v # w, r)) (read_literal cs')))
     else map_option (\<lambda>(w, r). (c # w, r)) (read_literal cs))"

text \<open>The text after a fixed piece of text, when the text starts with it.\<close>

definition expect :: "string \<Rightarrow> string \<Rightarrow> string option" where
  "expect p t = (if prefix p t then Some (drop (length p) t) else None)"

text \<open>
  The arms of a \<^verbatim>\<open>match\<close> of the generated shape: a literal pattern giving
  \<^verbatim>\<open>Some\<close> of a literal, the catch-all arm, and a literal pattern whose body is
  \<^verbatim>\<open>panic!()\<close>. The emitter writes arms of the first two kinds; the third is an arm
  that the text can hold all the same.
\<close>

datatype arm = Case string string | CatchAll | Panics string

definition indent :: string where
  "indent = ''        ''"

definition catch_all_body :: string where
  "catch_all_body =
     ''_ => {\<newline>''
     @ ''            info!('' @ [dq] @ ''Unknown party member found: {}'' @ [dq] @ '', s);\<newline>''
     @ ''            None\<newline>''
     @ ''        }\<newline>''"

fun render_arm :: "arm \<Rightarrow> string" where
  "render_arm (Case guid name) =
     ''        '' @ [dq] @ guid @ [dq] @ '' => Some('' @ [dq] @ name @ [dq] @ ''),\<newline>''"
| "render_arm CatchAll =
     ''        _ => {\<newline>''
     @ ''            info!('' @ [dq] @ ''Unknown party member found: {}'' @ [dq] @ '', s);\<newline>''
     @ ''            None\<newline>''
     @ ''        }\<newline>''"
| "render_arm (Panics guid) =
     ''        '' @ [dq] @ guid @ [dq] @ '' => panic!(),\<newline>''"

text \<open>
  Modelled from the spec: the reading of the arms of the generated \<^verbatim>\<open>match\<close>, which
  is not among the sources. Given the text that follows \<^verbatim>\<open>match s {\<close>, the result is
  the list of its arms, in their order, up to the closing braces and the end of the text;
  a text of another shape is not read.
\<close>

function read_arms :: "string \<Rightarrow> arm list option" where
  "read_arms t =
    (if t = epilogue then Some []
     else
       (case expect indent t of
          None \<Rightarrow> None
        | Some t0 \<Rightarrow>
           (case expect [dq] t0 of
              None \<Rightarrow>
               (case expect catch_all_body t0 of
                  None \<Rightarrow> None
                | Some t1 \<Rightarrow> map_option (\<lambda>arms. CatchAll # arms) (read_arms t1))
            | Some t1 \<Rightarrow>
               (case read_literal t1 of
                  None \<Rightarrow> None
                | Some (guid, t2) \<Rightarrow>
                   (case expect ('' => Some('' @ [dq]) t2 of
                      None \<Rightarrow>
                       (case expect '' => panic!(),\<newline>'' t2 of
                          None \<Rightarrow> None
                        | Some t3 \<Rightarrow> map_option (\<lambda>arms. Panics guid # arms) (read_arms t3))
                    | Some t3 \<Rightarrow>
                       (case read_literal t3 of
                          None \<Rightarrow> None
                        | Some (name, t4) \<Rightarrow>
                           (case expect ''),\<newline>'' t4 of
                              None \<Rightarrow> None
                            | Some t5 \<Rightarrow>
                               map_option (\<lambda>arms. Case guid name # arms) (read_arms t5))))))))"
  by pat_completeness auto

termination read_arms
proof -
  have lit: "length r < length t" if "read_literal t = Some (v, r)" for t v r
    using that
  proof (induction t arbitrary: v r rule: read_literal.induct)
    case 1
    then show ?case by simp
  next
    case (2 c cs)
    then show ?case
      by (fastforce split: if_splits list.splits option.splits)
  qed
  have exp: "length r \<le> length t" if "expect p t = Some r" for p t r
    using that by (auto simp: expect_def split: if_splits)
  have ind: "length r < length t" if "expect indent t = Some r" for t r
    using that by (auto simp: expect_def prefix_def indent_def split: if_splits)
  show ?thesis
  proof (relation "measure length")
    show "wf (measure length)"
      by simp
  next
    fix t t0 t1 :: string
    assume "expect indent t = Some t0" "expect catch_all_body t0 = Some t1"
    then have "length t0 < length t" "length t1 \<le> length t0"
      using ind exp by blast+
    then show "(t1, t) \<in> measure length"
      by simp
  next
    fix t t0 t1 t2 t3 :: string and x guid
    assume "expect indent t = Some t0" "expect [dq] t0 = Some t1"
      "read_literal t1 = Some x" "(guid, t2) = x"
      "expect '' => panic!(),\<newline>'' t2 = Some t3"
    then have "length t0 < length t" "length t1 \<le> length t0" "length t2 < length t1"
      "length t3 \<le> length t2"
      using ind exp lit by blast+
    then show "(t3, t) \<in> measure length"
      by simp
  next
    fix t t0 t1 t2 t3 t4 t5 :: string and x guid y name
    assume "expect indent t = Some t0" "expect [dq] t0 = Some t1"
      "read_literal t1 = Some x" "(guid, t2) = x"
      "expect ('' => Some('' @ [dq]) t2 = Some t3"
      "read_literal t3 = Some y" "(name, t4) = y"
      "expect ''),\<newline>'' t4 = Some t5"
    then have "length t0 < length t" "length t1 \<le> length t0" "length t2 < length t1"
      "length t3 \<le> length t2" "length t4 < length t3" "length t5 \<le> length t4"
      using ind exp lit by blast+
    then show "(t5, t) \<in> measure length"
      by simp
  qed
qed

declare read_arms.simps [simp del]

text \<open>
  Modelled from the spec: the reading of the whole generated function for a category: the
  signature lines, then the arms.
\<close>

definition read_function :: "string \<Rightarrow> string \<Rightarrow> arm list option" where
  "read_function type text =
    (case expect (prologue type) text of None \<Rightarrow> None | Some t \<Rightarrow> read_arms t)"

text \<open>The result of a lookup: the value that the function returns, or no value at all.\<close>

datatype outcome = Returns "string option" | Aborts

text \<open>
  Modelled from the spec: the evaluation of the generated \<^verbatim>\<open>match\<close>, first-match-wins
  over the arms in their textual order, with the catch-all arm giving the no-value
  result. The lookup aborts when the arm that applies panics, or when no arm applies.
\<close>

fun eval_match :: "arm list \<Rightarrow> string \<Rightarrow> outcome" where
  "eval_match [] s = Aborts"
| "eval_match (Case guid name # rest) s =
    (if s = guid then Returns (Some name) else eval_match rest s)"
| "eval_match (CatchAll # rest) s = Returns None"
| "eval_match (Panics guid # rest) s =
    (if s = guid then Aborts else eval_match rest s)"

text \<open>
  Modelled from the spec: the lookup of \<open>s\<close> in a generated text, \<open>None\<close> when the text
  is not read.
\<close>

definition run_lookup :: "string \<Rightarrow> string \<Rightarrow> string \<Rightarrow> outcome option" where
  "run_lookup type text s = map_option (\<lambda>arms. eval_match arms s) (read_function type text)"

text \<open>
  The lookup in the text that the emitter writes for a sequence of entries: the emitter of
  the source, then the lookup in its output.
\<close>

definition generated_lookup :: "string \<Rightarrow> named_entry list \<Rightarrow> string \<Rightarrow> outcome option" where
  "generated_lookup type entries s = run_lookup type (as_string_function type entries) s"

text \<open>
  A string that a literal holds as it stands: without double quote, backslash or carriage
  return.
\<close>

definition plain :: "string \<Rightarrow> bool" where
  "plain s = (dq \<notin> set s \<and> bs \<notin> set s \<and> cr \<notin> set s)"

definition plain_entries :: "named_entry list \<Rightarrow> bool" where
  "plain_entries entries = list_all (\<lambda>(guid, name). plain guid \<and> plain name) entries"

section \<open>Basic facts\<close>

lemma loop_body_json_record:
  "loop_body (json_record name type guid) g = Inr (classify name type guid g)"
  by (simp add: loop_body_def getitem_def json_record_def)

lemma classify_entries:
  "classify name type guid g =
     g\<lparr>squads := squads g @ squad_entries name type guid,
       companions := companions g @ companion_entries name guid\<rparr>"
proof -
  define c1 where "c1 = endswith name ''_Companion''"
  define n1 where "n1 = after_suffix name"
  define c2 where "c2 = startswith n1 ''AnimalCompanionUnit''"
  define n2 where "n2 = after_prefix name"
  define c3 where "c3 = (n2 = ''AzataDragonUnit'')"
  define c4 where "c4 = (startswith n2 ''Army'' \<and> type = ''Kingmaker.Blueprints.BlueprintUnit'')"
  have n1: "n1 = (if c1 then take (length name - 10) name else name)"
    by (simp add: n1_def c1_def after_suffix_def)
  have n2: "n2 = (if c2 then drop 19 n1 else n1)"
    by (simp add: n2_def c2_def n1_def after_prefix_def)
  have "classify name type guid g =
    (let (name1, g1) =
           (if c1 then (n1, g\<lparr>companions := companions g @ [(guid, n1)]\<rparr>) else (n1, g));
         (name2, g2) =
           (if c2 then (n2, g1\<lparr>companions := companions g1 @ [(guid, n2)]\<rparr>) else (n2, g1));
         g3 = (if c3 then g2\<lparr>companions := companions g2 @ [(guid, ''Aivu'')]\<rparr> else g2)
     in (if c4 then g3\<lparr>squads := squads g3 @ [(guid, drop 4 n2)]\<rparr> else g3))"
    unfolding classify_def Let_def c1_def [symmetric]
    by (cases c1; cases c2; cases c3; cases c4) (simp_all add: n1 n2 c2_def c3_def c4_def)
  also have "\<dots> = g\<lparr>squads := squads g @ (if c4 then [(guid, drop 4 n2)] else []),
       companions := companions g @ ((if c1 then [(guid, n1)] else [])
          @ (if c2 then [(guid, n2)] else []) @ (if c3 then [(guid, ''Aivu'')] else []))\<rparr>"
    by (cases c1; cases c2; cases c3; cases c4) simp_all
  finally show ?thesis
    by (simp add: squad_entries_def companion_entries_def c1_def c2_def c3_def c4_def n1_def n2_def)
qed

lemmas entries_defs =
  squad_entries_def companion_entries_def after_prefix_def after_suffix_def
  startswith_def endswith_def suffix_to_prefix

lemma arms_loop_text:
  "arms_loop entries code =
     code @ concat (map (\<lambda>(guid, name). render_arm (Case guid name)) (rendered entries))"
  by (induction entries code rule: arms_loop.induct) (simp_all add: rendered_def)

lemma as_string_function_text:
  "as_string_function type entries
     = prologue type
       @ concat (map (\<lambda>(guid, name). render_arm (Case guid name)) (rendered entries))
       @ render_arm CatchAll @ epilogue"
  by (simp add: as_string_function_def Let_def arms_loop_text prologue_def epilogue_def)

lemma loop_body_Inr:
  assumes "loop_body e g = Inr g'"
  obtains name type guid where "e ''Name'' = Some name" "e ''TypeFullName'' = Some type"
    "e ''Guid'' = Some guid" "g' = classify name type guid g"
  using assms by (auto simp: loop_body_def getitem_def split: option.splits)

lemma fst_squad_entries: "fst ` set (squad_entries name type guid) \<subseteq> {guid}"
  by (auto simp: squad_entries_def)

lemma fst_companion_entries: "fst ` set (companion_entries name guid) \<subseteq> {guid}"
  by (auto simp: companion_entries_def)

lemma extraction_identifiers:
  "extraction entries g = Inr g' \<Longrightarrow>
   fst ` set (squads g' @ companions g')
     \<subseteq> fst ` set (squads g @ companions g) \<union> {guid. \<exists>e \<in> set entries. e ''Guid'' = Some guid}"
proof (induction entries arbitrary: g)
  case Nil
  then show ?case by simp
next
  case (Cons e entries)
  from Cons.prems obtain g1 where b: "loop_body e g = Inr g1" and r: "extraction entries g1 = Inr g'"
    by (auto split: sum.splits)
  from b obtain name type guid where guid: "e ''Guid'' = Some guid"
    and g1: "g1 = classify name type guid g"
    by (rule loop_body_Inr)
  have "fst ` set (squads g1 @ companions g1) \<subseteq> fst ` set (squads g @ companions g) \<union> {guid}"
    using fst_squad_entries [of name type guid] fst_companion_entries [of name guid]
    by (auto simp: g1 classify_entries)
  with Cons.IH [OF r] guid show ?case
    by auto
qed

lemma loop_body_Inl:
  "loop_body e g = Inl err \<Longrightarrow> err \<in> KeyError ` {''Name'', ''TypeFullName'', ''Guid''}"
  by (auto simp: loop_body_def getitem_def split: option.splits)

lemma loop_body_missing:
  "e ''Name'' = None \<or> e ''TypeFullName'' = None \<or> e ''Guid'' = None \<Longrightarrow>
   \<exists>k \<in> {''Name'', ''TypeFullName'', ''Guid''}. loop_body e g = Inl (KeyError k)"
  by (auto simp: loop_body_def getitem_def split: option.splits)

lemma extraction_append:
  "extraction (xs @ ys) g =
     (case extraction xs g of Inl err \<Rightarrow> Inl err | Inr g' \<Rightarrow> extraction ys g')"
  by (induction xs arbitrary: g) (auto split: sum.splits)

lemma extraction_Inl:
  "extraction xs g = Inl err \<Longrightarrow> err \<in> KeyError ` {''Name'', ''TypeFullName'', ''Guid''}"
  by (induction xs arbitrary: g) (auto split: sum.splits dest: loop_body_Inl)

lemma rendered_append: "rendered (xs @ ys) = rendered xs @ rendered ys"
  by (simp add: rendered_def)

lemma rendered_Cons:
  "rendered ((guid, name) # xs) = (if name = '''' then rendered xs else (guid, name) # rendered xs)"
  by (simp add: rendered_def)

lemma read_literal_plain:
  "plain s \<Longrightarrow> read_literal (s @ dq # rest) = Some (s, rest)"
  by (induction s) (auto simp: plain_def)

lemma expect_append: "expect p (p @ r) = Some r"
  by (simp add: expect_def)

lemma expect_append2: "expect (p @ q) (p @ q @ r) = Some r"
  using expect_append [of "p @ q" r] by simp

lemma render_arm_Case_indent:
  "render_arm (Case guid name) @ t
     = indent @ [dq] @ guid @ dq # ('' => Some('' @ [dq]) @ name @ dq # ''),\<newline>'' @ t"
  by (simp add: indent_def)

lemma render_arm_Panics_indent:
  "render_arm (Panics guid) @ t = indent @ [dq] @ guid @ dq # '' => panic!(),\<newline>'' @ t"
  by (simp add: indent_def)

lemma render_arm_CatchAll_indent: "render_arm CatchAll = indent @ catch_all_body"
  by (simp add: indent_def catch_all_body_def)

lemma indent_not_epilogue: "indent @ t \<noteq> epilogue"
  by (simp add: indent_def epilogue_def)

lemma read_arms_epilogue: "read_arms epilogue = Some []"
  by (simp add: read_arms.simps)

lemma catch_all_body_not_dq: "expect [dq] (catch_all_body @ t) = None"
  by (simp add: catch_all_body_def expect_def dq_def)

lemma read_arms_CatchAll:
  "read_arms (render_arm CatchAll @ t) = map_option (\<lambda>arms. CatchAll # arms) (read_arms t)"
proof -
  have "read_arms (indent @ catch_all_body @ t)
          = map_option (\<lambda>arms. CatchAll # arms) (read_arms t)"
    by (subst read_arms.simps)
       (simp add: indent_not_epilogue expect_append catch_all_body_not_dq)
  then show ?thesis
    by (simp only: render_arm_CatchAll_indent append_assoc)
qed

lemma read_arms_Case:
  assumes "plain guid" "plain name"
  shows "read_arms (render_arm (Case guid name) @ t)
           = map_option (\<lambda>arms. Case guid name # arms) (read_arms t)"
proof -
  have "read_arms (indent @ [dq] @ guid @ dq # ('' => Some('' @ [dq]) @ name @ dq # ''),\<newline>'' @ t)
          = map_option (\<lambda>arms. Case guid name # arms) (read_arms t)"
    by (subst read_arms.simps)
       (simp add: indent_not_epilogue expect_append expect_append2 read_literal_plain assms
          del: append_Cons append_Nil)
  then show ?thesis
    by (simp only: render_arm_Case_indent)
qed

lemma arrow_panic_not_some: "expect ('' => Some('' @ [dq]) ('' => panic!(),\<newline>'' @ t) = None"
  by (simp add: expect_def)

lemma read_arms_Panics:
  assumes "plain guid"
  shows "read_arms (render_arm (Panics guid) @ t)
           = map_option (\<lambda>arms. Panics guid # arms) (read_arms t)"
proof -
  have "read_arms (indent @ [dq] @ guid @ dq # '' => panic!(),\<newline>'' @ t)
          = map_option (\<lambda>arms. Panics guid # arms) (read_arms t)"
    by (subst read_arms.simps)
       (simp add: indent_not_epilogue expect_append read_literal_plain assms arrow_panic_not_some
          del: append_Cons append_Nil)
  then show ?thesis
    by (simp only: render_arm_Panics_indent)
qed

lemma read_arms_rendered:
  "plain_entries xs \<Longrightarrow>
   read_arms (concat (map (\<lambda>(guid, name). render_arm (Case guid name)) xs)
              @ render_arm CatchAll @ epilogue)
     = Some (map (\<lambda>(guid, name). Case guid name) xs @ [CatchAll])"
proof (induction xs)
  case Nil
  show ?case
    using read_arms_CatchAll [of epilogue] by (simp add: read_arms_epilogue del: render_arm.simps)
next
  case (Cons x xs)
  obtain guid name where x: "x = (guid, name)"
    by (cases x)
  from Cons.prems have p: "plain guid" "plain name" and rest: "plain_entries xs"
    by (simp_all add: x plain_entries_def)
  show ?case
    using read_arms_Case [OF p] Cons.IH [OF rest]
    by (simp add: x del: render_arm.simps)
qed

lemma read_function_emitted:
  "plain_entries (rendered entries) \<Longrightarrow>
   read_function type (as_string_function type entries)
     = Some (map (\<lambda>(guid, name). Case guid name) (rendered entries) @ [CatchAll])"
  by (simp add: read_function_def as_string_function_text expect_append read_arms_rendered
        del: render_arm.simps)

lemma eval_match_rendered:
  "eval_match (map (\<lambda>(guid, name). Case guid name) xs @ [CatchAll]) s = Returns (map_of xs s)"
  by (induction xs) auto

lemma generated_lookup_plain:
  "plain_entries (rendered entries) \<Longrightarrow>
   generated_lookup type entries s = Some (Returns (map_of (rendered entries) s))"
  by (simp add: generated_lookup_def run_lookup_def read_function_emitted eval_match_rendered)





section \<open>The claims\<close>

text \<open>
  C8. The stripping arithmetic on the three sample names: a record named
  \<^verbatim>\<open>AnimalCompanionUnitWolf\<close> resolves to \<^verbatim>\<open>Wolf\<close> (the first 19 characters removed),
  one named \<^verbatim>\<open>Hero_Companion\<close> to \<^verbatim>\<open>Hero\<close> (the last 10 characters removed), and
  one named exactly \<^verbatim>\<open>AzataDragonUnit\<close> to the fixed name \<^verbatim>\<open>Aivu\<close>; each is appended
  to \<^verbatim>\<open>companions\<close>, whatever the record's type and identifier, and \<^verbatim>\<open>squads\<close> is left
  as it was.
\<close>

theorem stripping_examples:
  "loop_body (json_record ''AnimalCompanionUnitWolf'' type guid) g
     = Inr (g\<lparr>companions := companions g @ [(guid, ''Wolf'')]\<rparr>)
   \<and> loop_body (json_record ''Hero_Companion'' type guid) g
     = Inr (g\<lparr>companions := companions g @ [(guid, ''Hero'')]\<rparr>)
   \<and> loop_body (json_record ''AzataDragonUnit'' type guid) g
     = Inr (g\<lparr>companions := companions g @ [(guid, ''Aivu'')]\<rparr>)"
  by (simp add: loop_body_json_record classify_entries entries_defs)

text \<open>
  C10. A record whose \<^verbatim>\<open>Name\<close> is the empty string matches none of the four tests,
  whatever its type and identifier: the loop body returns normally and leaves both lists
  as they were.
\<close>

theorem empty_display_name_ignored:
  "loop_body (json_record '''' type guid) g = Inr g
   \<and> extraction [json_record '''' type guid] initial = Inr \<lparr>squads = [], companions = []\<rparr>"
  by (simp add: loop_body_json_record classify_entries entries_defs initial_def)

text \<open>
  C1. As the claim is written, a record whose \<^verbatim>\<open>Name\<close> ends in \<^verbatim>\<open>_Companion\<close> would
  add one pair and nothing else. The script's tests are separate \<^verbatim>\<open>if\<close> statements, not
  alternatives, and the later ones see the stripped name: \<^verbatim>\<open>ArmyOrcs_Companion\<close> of the
  unit-blueprint type adds a pair to \<^verbatim>\<open>companions\<close> and one to \<^verbatim>\<open>squads\<close>, and
  \<^verbatim>\<open>AnimalCompanionUnitWolf_Companion\<close> adds two pairs to \<^verbatim>\<open>companions\<close>.
\<close>

theorem companion_suffix_counterexample:
  "endswith ''ArmyOrcs_Companion'' ''_Companion''
   \<and> loop_body (json_record ''ArmyOrcs_Companion'' ''Kingmaker.Blueprints.BlueprintUnit'' ''G1'')
        initial
      = Inr \<lparr>squads = [(''G1'', ''Orcs'')], companions = [(''G1'', ''ArmyOrcs'')]\<rparr>
   \<and> endswith ''AnimalCompanionUnitWolf_Companion'' ''_Companion''
   \<and> loop_body (json_record ''AnimalCompanionUnitWolf_Companion'' ''X'' ''G2'') initial
      = Inr \<lparr>squads = [],
             companions = [(''G2'', ''AnimalCompanionUnitWolf''), (''G2'', ''Wolf'')]\<rparr>"
  by (simp add: loop_body_json_record classify_entries entries_defs initial_def)

text \<open>
  C1, as the code has it. For a record whose \<^verbatim>\<open>Name\<close> ends in \<^verbatim>\<open>_Companion\<close>, the pair
  (identifier, name without its last 10 characters) is the first thing the record appends
  to \<^verbatim>\<open>companions\<close>. It is the only pair the record adds to either list exactly when the
  stripped name does not begin with \<^verbatim>\<open>AnimalCompanionUnit\<close>, is not
  \<^verbatim>\<open>AzataDragonUnit\<close>, and does not both begin with \<^verbatim>\<open>Army\<close> and come with the
  unit-blueprint type.
\<close>

theorem companion_suffix_rule:
  assumes "endswith name ''_Companion''"
    and "stripped = take (length name - 10) name"
  shows "prefix (companions g @ [(guid, stripped)]) (companions (classify name type guid g))
   \<and> (classify name type guid g = g\<lparr>companions := companions g @ [(guid, stripped)]\<rparr>
        \<longleftrightarrow> \<not> startswith stripped ''AnimalCompanionUnit''
            \<and> stripped \<noteq> ''AzataDragonUnit''
            \<and> \<not> (startswith stripped ''Army'' \<and> type = ''Kingmaker.Blueprints.BlueprintUnit''))"
proof -
  let ?one = "g\<lparr>companions := companions g @ [(guid, stripped)]\<rparr>"
  have s: "after_suffix name = stripped"
    using assms by (simp add: after_suffix_def)
  have army: "\<not> prefix ''AnimalCompanionUnit'' n" if "prefix ''Army'' n" for n :: string
    using that by (auto simp: prefix_def)
  have first: "companion_entries name guid =
      (guid, stripped) #
        (if startswith stripped ''AnimalCompanionUnit'' then [(guid, after_prefix name)] else [])
        @ (if after_prefix name = ''AzataDragonUnit'' then [(guid, ''Aivu'')] else [])"
    using assms(1) by (simp add: companion_entries_def s)
  have "classify name type guid g = ?one
          \<longleftrightarrow> squad_entries name type guid = [] \<and> companion_entries name guid = [(guid, stripped)]"
  proof
    assume h: "classify name type guid g = ?one"
    from arg_cong [OF h, of squads] arg_cong [OF h, of companions]
    show "squad_entries name type guid = [] \<and> companion_entries name guid = [(guid, stripped)]"
      by (simp add: classify_entries)
  next
    assume "squad_entries name type guid = [] \<and> companion_entries name guid = [(guid, stripped)]"
    then show "classify name type guid g = ?one"
      by (simp add: classify_entries)
  qed
  also have "\<dots> \<longleftrightarrow> \<not> startswith stripped ''AnimalCompanionUnit''
            \<and> stripped \<noteq> ''AzataDragonUnit''
            \<and> \<not> (startswith stripped ''Army'' \<and> type = ''Kingmaker.Blueprints.BlueprintUnit'')"
    by (auto simp: first squad_entries_def after_prefix_def s startswith_def)
  finally have iff: "classify name type guid g = ?one
      \<longleftrightarrow> \<not> startswith stripped ''AnimalCompanionUnit''
            \<and> stripped \<noteq> ''AzataDragonUnit''
            \<and> \<not> (startswith stripped ''Army'' \<and> type = ''Kingmaker.Blueprints.BlueprintUnit'')" .
  have "prefix (companions g @ [(guid, stripped)]) (companions (classify name type guid g))"
    by (simp add: classify_entries first)
  with iff show ?thesis
    by blast
qed

theorem companion_suffix_rule_witness:
  "endswith ''Hero_Companion'' ''_Companion''
   \<and> classify ''Hero_Companion'' ''X'' ''G1'' initial
       = \<lparr>squads = [], companions = [(''G1'', ''Hero'')]\<rparr>"
proof -
  have h1: "endswith ''Hero_Companion'' ''_Companion''"
    by (simp add: endswith_def suffix_to_prefix)
  have h2: "''Hero'' = take (length ''Hero_Companion'' - 10) ''Hero_Companion''"
    by simp
  from companion_suffix_rule [OF h1 h2, of initial "''G1''" "''X''"] h1 show ?thesis
    by (simp add: startswith_def initial_def)
qed

text \<open>
  C2. As the claim is written, every pair appended to either list would have a non-empty
  identifier. The script copies \<^verbatim>\<open>entry['Guid']\<close> into the pair and never looks at it:
  a record with the empty string as its \<^verbatim>\<open>Guid\<close> yields a pair with an empty identifier.
\<close>

theorem empty_identifier_counterexample:
  "loop_body (json_record ''Hero_Companion'' ''X'' '''') initial
     = Inr \<lparr>squads = [], companions = [('''', ''Hero'')]\<rparr>"
  by (simp add: loop_body_json_record classify_entries entries_defs initial_def)

text \<open>
  C2, as the code has it. The identifier of every pair in either list is the \<^verbatim>\<open>Guid\<close> of
  a record of the input, unchanged; so when no record of the input has the empty string
  as its \<^verbatim>\<open>Guid\<close>, every pair in either list has a non-empty identifier.
\<close>

theorem identifier_is_record_guid:
  assumes "extraction entries initial = Inr g"
    and "\<forall>e \<in> set entries. e ''Guid'' \<noteq> Some ''''"
  shows "\<forall>(guid, name) \<in> set (squads g @ companions g).
           guid \<noteq> '''' \<and> (\<exists>e \<in> set entries. e ''Guid'' = Some guid)"
proof -
  have "fst ` set (squads g @ companions g) \<subseteq> {guid. \<exists>e \<in> set entries. e ''Guid'' = Some guid}"
    using extraction_identifiers [OF assms(1)] by (simp add: initial_def)
  with assms(2) show ?thesis
    by (fastforce simp del: set_append)
qed

theorem identifier_is_record_guid_witness:
  "extraction [json_record ''Hero_Companion'' ''X'' ''G1'',
               json_record ''ArmyOrcs'' ''Kingmaker.Blueprints.BlueprintUnit'' ''G2''] initial
     = Inr \<lparr>squads = [(''G2'', ''Orcs'')], companions = [(''G1'', ''Hero'')]\<rparr>
   \<and> ''G1'' \<noteq> '''' \<and> ''G2'' \<noteq> ''''"
proof -
  let ?es = "[json_record ''Hero_Companion'' ''X'' ''G1'',
              json_record ''ArmyOrcs'' ''Kingmaker.Blueprints.BlueprintUnit'' ''G2'']"
  let ?g = "\<lparr>squads = [(''G2'', ''Orcs'')], companions = [(''G1'', ''Hero'')]\<rparr>"
  have run: "extraction ?es initial = Inr ?g"
    by (simp add: loop_body_json_record classify_entries entries_defs initial_def)
  have guids: "\<forall>e \<in> set ?es. e ''Guid'' \<noteq> Some ''''"
    by (simp add: json_record_def)
  from identifier_is_record_guid [OF run guids] run show ?thesis
    by simp
qed

text \<open>
  C7. For a record that neither of the two name-changing companion tests matched (its
  \<^verbatim>\<open>Name\<close> does not end in \<^verbatim>\<open>_Companion\<close> and does not begin with
  \<^verbatim>\<open>AnimalCompanionUnit\<close>; the \<^verbatim>\<open>AzataDragonUnit\<close> test leaves the name alone), a pair
  is appended to \<^verbatim>\<open>squads\<close> if and only if the name begins with \<^verbatim>\<open>Army\<close> and the type
  is \<^verbatim>\<open>Kingmaker.Blueprints.BlueprintUnit\<close>, and the pair is (identifier, name without its
  first 4 characters). A record named \<^verbatim>\<open>ArmyOrcs\<close> adds \<^verbatim>\<open>Orcs\<close> under that type and
  nothing under any other.
\<close>

theorem squads_rule:
  assumes "\<not> endswith name ''_Companion''"
    and "\<not> startswith name ''AnimalCompanionUnit''"
  shows "squads (classify name type guid g)
           = (if startswith name ''Army'' \<and> type = ''Kingmaker.Blueprints.BlueprintUnit''
              then squads g @ [(guid, drop 4 name)] else squads g)
   \<and> squads (classify ''ArmyOrcs'' type guid g)
           = (if type = ''Kingmaker.Blueprints.BlueprintUnit''
              then squads g @ [(guid, ''Orcs'')] else squads g)"
  using assms
  by (simp add: classify_entries squad_entries_def after_prefix_def after_suffix_def)
     (simp add: startswith_def endswith_def suffix_to_prefix)

theorem squads_rule_witness:
  "\<not> endswith ''ArmyOrcs'' ''_Companion'' \<and> \<not> startswith ''ArmyOrcs'' ''AnimalCompanionUnit''
   \<and> squads (classify ''ArmyOrcs'' ''Kingmaker.Blueprints.BlueprintUnit'' ''G1'' initial)
       = [(''G1'', ''Orcs'')]
   \<and> squads (classify ''ArmyOrcs'' ''Kingmaker.Blueprints.BlueprintItem'' ''G1'' initial) = []"
proof -
  have h1: "\<not> endswith ''ArmyOrcs'' ''_Companion''"
    by (simp add: endswith_def suffix_to_prefix)
  have h2: "\<not> startswith ''ArmyOrcs'' ''AnimalCompanionUnit''"
    by (simp add: startswith_def)
  from squads_rule [OF h1 h2, of "''Kingmaker.Blueprints.BlueprintUnit''" "''G1''" initial]
       squads_rule [OF h1 h2, of "''Kingmaker.Blueprints.BlueprintItem''" "''G1''" initial]
       h1 h2
  show ?thesis
    by (simp add: startswith_def initial_def)
qed

text \<open>
  C6. If a record of the input lacks \<^verbatim>\<open>Name\<close>, \<^verbatim>\<open>TypeFullName\<close> or \<^verbatim>\<open>Guid\<close>, the
  loop raises \<^verbatim>\<open>KeyError\<close> for one of these three keys (the malformed-input failure),
  at that record or at an earlier one that is malformed too: the records after it are
  never looked at, the exception ends the run, and the file system is as it was before
  the run, with no output file written.
\<close>

theorem missing_field_aborts:
  assumes "entries = before @ e # rest"
    and "e ''Name'' = None \<or> e ''TypeFullName'' = None \<or> e ''Guid'' = None"
  shows "\<exists>k \<in> {''Name'', ''TypeFullName'', ''Guid''}.
           extraction entries initial = Inl (KeyError k)
           \<and> extraction (before @ [e]) initial = Inl (KeyError k)
           \<and> script entries fs = (Some (KeyError k), fs)"
proof (cases "extraction before initial")
  case (Inl err)
  then obtain k where "k \<in> {''Name'', ''TypeFullName'', ''Guid''}" "err = KeyError k"
    using extraction_Inl by blast
  with Inl show ?thesis
    by (auto simp: assms(1) script_def extraction_append)
next
  case (Inr g)
  from loop_body_missing [OF assms(2), of g]
  obtain k where "k \<in> {''Name'', ''TypeFullName'', ''Guid''}" "loop_body e g = Inl (KeyError k)"
    by blast
  with Inr show ?thesis
    by (auto simp: assms(1) script_def extraction_append)
qed

theorem missing_field_aborts_witness:
  "extraction [json_record ''Hero_Companion'' ''X'' ''G1'',
               [''Name'' \<mapsto> ''ArmyOrcs'', ''Guid'' \<mapsto> ''G2''],
               json_record ''ArmyElves'' ''X'' ''G3''] initial
     = Inl (KeyError ''TypeFullName'')
   \<and> script [json_record ''Hero_Companion'' ''X'' ''G1'',
             [''Name'' \<mapsto> ''ArmyOrcs'', ''Guid'' \<mapsto> ''G2''],
             json_record ''ArmyElves'' ''X'' ''G3''] Map.empty
     = (Some (KeyError ''TypeFullName''), Map.empty)"
proof -
  let ?bad = "[''Name'' \<mapsto> ''ArmyOrcs'', ''Guid'' \<mapsto> ''G2''] :: entry"
  let ?es = "[json_record ''Hero_Companion'' ''X'' ''G1'', ?bad, json_record ''ArmyElves'' ''X'' ''G3'']"
  have h1: "?es = [json_record ''Hero_Companion'' ''X'' ''G1''] @ ?bad # [json_record ''ArmyElves'' ''X'' ''G3'']"
    by simp
  have h2: "?bad ''Name'' = None \<or> ?bad ''TypeFullName'' = None \<or> ?bad ''Guid'' = None"
    by simp
  have run: "extraction ([json_record ''Hero_Companion'' ''X'' ''G1''] @ [?bad]) initial
               = Inl (KeyError ''TypeFullName'')"
    by (simp add: loop_body_json_record) (simp add: loop_body_def getitem_def)
  from missing_field_aborts [OF h1 h2, of Map.empty]
  obtain k where a: "extraction ?es initial = Inl (KeyError k)"
    and b: "extraction ([json_record ''Hero_Companion'' ''X'' ''G1''] @ [?bad]) initial
              = Inl (KeyError k)"
    and c: "script ?es Map.empty = (Some (KeyError k), Map.empty)"
    by blast
  from b run have "k = ''TypeFullName''"
    by (simp only: sum.inject error.inject)
  with a c show ?thesis
    by (simp only:)
qed

text \<open>
  C9. The identifier and the name of an entry with a non-empty name go into the text
  character for character, between double quotes that the emitter writes itself: the line
  \<^verbatim>\<open>"<identifier>" => Some("<name>"),\<close> occurs in the output as it stands, and the output
  is the prologue, these lines in order, the catch-all arm and the closing braces. Nothing
  is escaped, so a double quote or a backslash in either string is in the output unchanged.
\<close>

theorem arm_rendered_verbatim:
  assumes "(guid, name) \<in> set entries" and "name \<noteq> ''''"
  shows "sublist (''        '' @ [CHR 0x22] @ guid @ [CHR 0x22] @ '' => Some('' @ [CHR 0x22] @ name
                    @ [CHR 0x22] @ ''),\<newline>'')
                 (as_string_function type entries)
   \<and> as_string_function type entries
       = prologue type
         @ concat (map (\<lambda>(guid, name).
                     ''        '' @ [CHR 0x22] @ guid @ [CHR 0x22] @ '' => Some(''
                     @ [CHR 0x22] @ name @ [CHR 0x22] @ ''),\<newline>'')
                   (rendered entries))
         @ render_arm CatchAll @ epilogue"
proof -
  have whole: "as_string_function type entries
       = prologue type
         @ concat (map (\<lambda>(guid, name).
                     ''        '' @ [CHR 0x22] @ guid @ [CHR 0x22] @ '' => Some(''
                     @ [CHR 0x22] @ name @ [CHR 0x22] @ ''),\<newline>'')
                   (rendered entries))
         @ render_arm CatchAll @ epilogue"
    by (simp add: as_string_function_text dq_def)
  have "(guid, name) \<in> set (rendered entries)"
    using assms by (simp add: rendered_def)
  then obtain xs ys where "rendered entries = xs @ (guid, name) # ys"
    by (auto dest: split_list)
  then have "as_string_function type entries =
      (prologue type @ concat (map (\<lambda>(guid, name). render_arm (Case guid name)) xs))
      @ render_arm (Case guid name)
      @ (concat (map (\<lambda>(guid, name). render_arm (Case guid name)) ys)
         @ render_arm CatchAll @ epilogue)"
    by (simp add: as_string_function_text del: render_arm.simps)
  then have "sublist (render_arm (Case guid name)) (as_string_function type entries)"
    unfolding sublist_def by blast
  then have "sublist (''        '' @ [CHR 0x22] @ guid @ [CHR 0x22] @ '' => Some('' @ [CHR 0x22] @ name
                    @ [CHR 0x22] @ ''),\<newline>'')
                 (as_string_function type entries)"
    by (simp add: dq_def)
  with whole show ?thesis
    by (simp only: simp_thms)
qed

theorem arm_rendered_verbatim_witness:
  "as_string_function ''squad'' [([CHR ''a'', CHR 0x22, CHR ''b''], [CHR ''c'', CHR 0x5C, CHR ''d''])]
     = ''/// Convert a squad guid into its (english) name\<newline>''
       @ ''pub fn squad_as_string(s: &str) -> Option<&'static str> {\<newline>''
       @ ''    match s {\<newline>''
       @ ''        '' @ [CHR 0x22] @ [CHR ''a'', CHR 0x22, CHR ''b''] @ [CHR 0x22] @ '' => Some(''
           @ [CHR 0x22] @ [CHR ''c'', CHR 0x5C, CHR ''d''] @ [CHR 0x22] @ ''),\<newline>''
       @ ''        _ => {\<newline>''
       @ ''            info!('' @ [CHR 0x22] @ ''Unknown party member found: {}'' @ [CHR 0x22]
           @ '', s);\<newline>''
       @ ''            None\<newline>''
       @ ''        }\<newline>''
       @ ''    }\<newline>}''
   \<and> sublist (''        '' @ [CHR 0x22] @ [CHR ''a'', CHR 0x22, CHR ''b''] @ [CHR 0x22] @ '' => Some(''
                 @ [CHR 0x22] @ [CHR ''c'', CHR 0x5C, CHR ''d''] @ [CHR 0x22] @ ''),\<newline>'')
         (as_string_function ''squad''
            [([CHR ''a'', CHR 0x22, CHR ''b''], [CHR ''c'', CHR 0x5C, CHR ''d''])])"
proof -
  let ?g = "[CHR ''a'', CHR 0x22, CHR ''b'']"
  let ?n = "[CHR ''c'', CHR 0x5C, CHR ''d'']"
  have h1: "(?g, ?n) \<in> set [(?g, ?n)]"
    by simp
  have h2: "?n \<noteq> ''''"
    by simp
  have out: "as_string_function ''squad'' [(?g, ?n)]
     = ''/// Convert a squad guid into its (english) name\<newline>''
       @ ''pub fn squad_as_string(s: &str) -> Option<&'static str> {\<newline>''
       @ ''    match s {\<newline>''
       @ ''        '' @ [CHR 0x22] @ ?g @ [CHR 0x22] @ '' => Some(''
           @ [CHR 0x22] @ ?n @ [CHR 0x22] @ ''),\<newline>''
       @ ''        _ => {\<newline>''
       @ ''            info!('' @ [CHR 0x22] @ ''Unknown party member found: {}'' @ [CHR 0x22]
           @ '', s);\<newline>''
       @ ''            None\<newline>''
       @ ''        }\<newline>''
       @ ''    }\<newline>}''"
    by (simp add: as_string_function_def dq_def)
  have sub: "sublist (''        '' @ [CHR 0x22] @ ?g @ [CHR 0x22] @ '' => Some(''
                 @ [CHR 0x22] @ ?n @ [CHR 0x22] @ ''),\<newline>'')
         (as_string_function ''squad'' [(?g, ?n)])"
    using arm_rendered_verbatim [OF h1 h2, of "''squad''"] by (rule conjunct1)
  from out sub show ?thesis
    by (rule conjI)
qed




text \<open>
  C4. As the claim is written, the lookup of \<^verbatim>\<open>G1\<close> would return \<^verbatim>\<open>A\<close> for any sequence
  in which \<^verbatim>\<open>(G1, A)\<close> is the first entry for \<^verbatim>\<open>G1\<close> and \<^verbatim>\<open>(G1, B)\<close> comes later. The
  emitter escapes nothing: an earlier entry for another identifier whose name holds a
  double quote gives the same text as a sequence with an entry \<^verbatim>\<open>(G1, Z)\<close> before
  them, and the lookup of \<^verbatim>\<open>G1\<close> returns \<^verbatim>\<open>Z\<close>.
\<close>

theorem first_occurrence_counterexample:
  "as_string_function ''squad''
     [(''X'', ''Y'' @ [CHR 0x22] @ ''),\<newline>        '' @ [CHR 0x22] @ ''G1'' @ [CHR 0x22]
              @ '' => Some('' @ [CHR 0x22] @ ''Z''),
      (''G1'', ''A''), (''G1'', ''B'')]
     = as_string_function ''squad''
         [(''X'', ''Y''), (''G1'', ''Z''), (''G1'', ''A''), (''G1'', ''B'')]
   \<and> generated_lookup ''squad''
     [(''X'', ''Y'' @ [CHR 0x22] @ ''),\<newline>        '' @ [CHR 0x22] @ ''G1'' @ [CHR 0x22]
              @ '' => Some('' @ [CHR 0x22] @ ''Z''),
      (''G1'', ''A''), (''G1'', ''B'')] ''G1''
     = Some (Returns (Some ''Z''))"
proof -
  have a: "as_string_function ''squad''
     [(''X'', ''Y'' @ [CHR 0x22] @ ''),\<newline>        '' @ [CHR 0x22] @ ''G1'' @ [CHR 0x22]
              @ '' => Some('' @ [CHR 0x22] @ ''Z''),
      (''G1'', ''A''), (''G1'', ''B'')]
     = as_string_function ''squad''
         [(''X'', ''Y''), (''G1'', ''Z''), (''G1'', ''A''), (''G1'', ''B'')]"
    by (simp add: as_string_function_def dq_def)
  have b: "generated_lookup ''squad''
     [(''X'', ''Y'' @ [CHR 0x22] @ ''),\<newline>        '' @ [CHR 0x22] @ ''G1'' @ [CHR 0x22]
              @ '' => Some('' @ [CHR 0x22] @ ''Z''),
      (''G1'', ''A''), (''G1'', ''B'')] ''G1''
     = Some (Returns (Some ''Z''))"
    by code_simp
  from a b show ?thesis
    by (rule conjI)
qed

text \<open>
  C4, as the code has it. The arms are written in the order of the input sequence, one for
  each entry with a non-empty name. When the identifiers and names of the rendered entries
  hold no double quote, backslash or carriage return, the text reads back as these arms;
  and then, when the sequence holds an entry \<open>(g1, a)\<close> with \<open>a\<close> non-empty that is the
  first entry rendered for \<open>g1\<close>, and later an entry \<open>(g1, b)\<close>, the generated lookup
  returns \<open>Some a\<close> for \<open>g1\<close>: the first occurrence wins.
\<close>

theorem first_occurrence_wins:
  "as_string_function type entries
     = prologue type
       @ concat (map (\<lambda>(guid, name). render_arm (Case guid name)) (rendered entries))
       @ render_arm CatchAll @ epilogue
   \<and> (plain_entries (rendered entries) \<longrightarrow>
        read_function type (as_string_function type entries)
          = Some (map (\<lambda>(guid, name). Case guid name) (rendered entries) @ [CatchAll]))
   \<and> (plain_entries (rendered entries)
        \<and> entries = before @ (g1, a) # mid @ (g1, b) # rest
        \<and> a \<noteq> '''' \<and> g1 \<notin> fst ` set (rendered before) \<longrightarrow>
        generated_lookup type entries g1 = Some (Returns (Some a)))"
proof -
  have look: "generated_lookup type entries g1 = Some (Returns (Some a))"
    if p: "plain_entries (rendered entries)"
      and e: "entries = before @ (g1, a) # mid @ (g1, b) # rest"
      and a: "a \<noteq> ''''" and f: "g1 \<notin> fst ` set (rendered before)"
  proof -
    have "map_of (rendered before) g1 = None"
      using f by (simp add: map_of_eq_None_iff)
    then have "map_of (rendered entries) g1 = Some a"
      using a by (simp add: e rendered_append rendered_Cons map_add_def)
    then show ?thesis
      by (simp add: generated_lookup_plain [OF p])
  qed
  show ?thesis
    using as_string_function_text [of type entries] read_function_emitted [of entries type] look
    by blast
qed

theorem first_occurrence_wins_witness:
  "plain_entries (rendered [(''G1'', ''A''), (''G1'', ''B'')])
   \<and> generated_lookup ''squad'' [(''G1'', ''A''), (''G1'', ''B'')] ''G1''
       = Some (Returns (Some ''A''))
   \<and> read_function ''squad'' (as_string_function ''squad'' [(''G1'', ''A''), (''G1'', ''B'')])
       = Some [Case ''G1'' ''A'', Case ''G1'' ''B'', CatchAll]"
proof -
  have p: "plain_entries (rendered [(''G1'', ''A''), (''G1'', ''B'')])"
    by (simp add: plain_entries_def rendered_def plain_def dq_def bs_def cr_def)
  have e: "[(''G1'', ''A''), (''G1'', ''B'')] = [] @ (''G1'', ''A'') # [] @ (''G1'', ''B'') # []"
    by simp
  have f: "''G1'' \<notin> fst ` set (rendered [])"
    by (simp add: rendered_def)
  note t = first_occurrence_wins [of "''squad''" "[(''G1'', ''A''), (''G1'', ''B'')]"
      "[]" "''G1''" "''A''" "[]" "''B''" "[]"]
  from t p have r: "read_function ''squad''
       (as_string_function ''squad'' [(''G1'', ''A''), (''G1'', ''B'')])
       = Some (map (\<lambda>(guid, name). Case guid name) (rendered [(''G1'', ''A''), (''G1'', ''B'')])
               @ [CatchAll])"
    by blast
  from t p e f have l: "generated_lookup ''squad'' [(''G1'', ''A''), (''G1'', ''B'')] ''G1''
       = Some (Returns (Some ''A''))"
    by blast
  from p l r show ?thesis
    by (simp add: rendered_def)
qed

text \<open>
  C5. As the claim is written, the generated lookup would return a value for every
  argument, whatever the entries are. The emitter escapes nothing: a name that holds a
  double quote can bring an arm of its own into the text, here one whose body is
  \<^verbatim>\<open>panic!()\<close>, and the lookup of its pattern aborts.
\<close>

theorem lookup_aborts_counterexample:
  "as_string_function ''squad''
     [(''x'', ''A'' @ [CHR 0x22] @ ''),\<newline>        '' @ [CHR 0x22] @ ''boom'' @ [CHR 0x22]
              @ '' => panic!(),\<newline>        '' @ [CHR 0x22] @ ''y'' @ [CHR 0x22]
              @ '' => Some('' @ [CHR 0x22] @ ''B'')]
     = prologue ''squad'' @ render_arm (Case ''x'' ''A'') @ render_arm (Panics ''boom'')
       @ render_arm (Case ''y'' ''B'') @ render_arm CatchAll @ epilogue
   \<and> generated_lookup ''squad''
     [(''x'', ''A'' @ [CHR 0x22] @ ''),\<newline>        '' @ [CHR 0x22] @ ''boom'' @ [CHR 0x22]
              @ '' => panic!(),\<newline>        '' @ [CHR 0x22] @ ''y'' @ [CHR 0x22]
              @ '' => Some('' @ [CHR 0x22] @ ''B'')] ''boom''
     = Some Aborts"
proof -
  have a: "as_string_function ''squad''
     [(''x'', ''A'' @ [CHR 0x22] @ ''),\<newline>        '' @ [CHR 0x22] @ ''boom'' @ [CHR 0x22]
              @ '' => panic!(),\<newline>        '' @ [CHR 0x22] @ ''y'' @ [CHR 0x22]
              @ '' => Some('' @ [CHR 0x22] @ ''B'')]
     = prologue ''squad'' @ render_arm (Case ''x'' ''A'') @ render_arm (Panics ''boom'')
       @ render_arm (Case ''y'' ''B'') @ render_arm CatchAll @ epilogue"
    by (simp add: as_string_function_def prologue_def epilogue_def dq_def)
  have b: "generated_lookup ''squad''
     [(''x'', ''A'' @ [CHR 0x22] @ ''),\<newline>        '' @ [CHR 0x22] @ ''boom'' @ [CHR 0x22]
              @ '' => panic!(),\<newline>        '' @ [CHR 0x22] @ ''y'' @ [CHR 0x22]
              @ '' => Some('' @ [CHR 0x22] @ ''B'')] ''boom''
     = Some Aborts"
    by code_simp
  from a b show ?thesis
    by (rule conjI)
qed

text \<open>
  C5, as the code has it. The text of the catch-all arm, followed only by the two closing
  braces, ends the emitted text whatever the entries are. When the identifiers and names of
  the rendered entries hold no double quote, backslash or carriage return, the generated
  lookup is total: for every argument it returns \<open>Some name\<close> or \<open>None\<close> (the first
  rendered entry for the argument, if any) and never aborts.
\<close>

theorem generated_lookup_total:
  "suffix (render_arm CatchAll @ epilogue) (as_string_function type entries)
   \<and> (plain_entries (rendered entries) \<longrightarrow>
        generated_lookup type entries s = Some (Returns (map_of (rendered entries) s))
        \<and> generated_lookup type entries s \<noteq> Some Aborts
        \<and> generated_lookup type entries s \<noteq> None)"
proof -
  have "suffix (render_arm CatchAll @ epilogue) (as_string_function type entries)"
    by (simp add: as_string_function_text suffix_def del: render_arm.simps)
  then show ?thesis
    by (simp add: generated_lookup_plain)
qed

theorem generated_lookup_total_witness:
  "plain_entries (rendered [(''G1'', ''Hero''), (''G2'', '''')])
   \<and> generated_lookup ''companion'' [(''G1'', ''Hero''), (''G2'', '''')] ''G1''
       = Some (Returns (Some ''Hero''))
   \<and> generated_lookup ''companion'' [(''G1'', ''Hero''), (''G2'', '''')] ''G3''
       = Some (Returns None)"
proof -
  have p: "plain_entries (rendered [(''G1'', ''Hero''), (''G2'', '''')])"
    by (simp add: plain_entries_def rendered_def plain_def dq_def bs_def cr_def)
  from generated_lookup_total [of "''companion''" "[(''G1'', ''Hero''), (''G2'', '''')]" "''G1''"]
       generated_lookup_total [of "''companion''" "[(''G1'', ''Hero''), (''G2'', '''')]" "''G3''"]
       p
  show ?thesis
    by (simp add: rendered_def)
qed

end
